theory Spec2Isabelle
  imports Complex_Main
begin

section \<open>Data model (types.ts)\<close>

text \<open>
  The loop recorder of the sampler: the \<open>Recorder\<close> component together with the part of
  its host \<open>Sampler\<close> that captures pad hits. JavaScript numbers are modelled by exact
  numbers: clock readings and hit offsets (differences of \<open>Date.now()\<close>) are integers,
  durations and positions are rationals. Rounding of IEEE doubles is outside the model.

  \<open>RecordedHit\<close> and \<open>Recording\<close> are the interfaces of types.ts. The fields \<open>bars\<close>
  and \<open>bpm\<close> of a \<open>Recording\<close> are named \<open>rec_bars\<close> and \<open>rec_bpm\<close> here, because the
  component state has variables of the same names.
\<close>

record RecordedHit =
  padId :: nat
  timestamp :: int

record Recording =
  hits :: "RecordedHit list"
  rec_bars :: nat
  rec_bpm :: nat
  duration :: rat

section \<open>Tempo arithmetic\<close>

text \<open>\<open>calculateDuration\<close>: four beats per bar, duration in milliseconds.\<close>

definition calculateDuration :: "rat \<Rightarrow> rat \<Rightarrow> rat" where
  "calculateDuration selectedBars selectedBpm =
     (let beats = selectedBars * 4 in (beats / selectedBpm) * 60 * 1000)"

text \<open>
  The position computed by the polling callbacks of recording and playback:
  \<open>Math.min(elapsed / duration, 1)\<close>.
\<close>

definition position :: "int \<Rightarrow> rat \<Rightarrow> rat" where
  "position elapsed dur = min (of_int elapsed / dur) 1"



section \<open>Component state\<close>

text \<open>
  A React function component runs once per render; the values of its \<open>useState\<close>
  variables and props are constants of that run, and every function defined in the run
  (event handler or timer callback) closes over them. \<open>render\<close> collects these values
  for \<open>Sampler\<close> (\<open>audioContext\<close>, \<open>playingPads\<close>, \<open>isRecording\<close>, \<open>recordedHits\<close>; the
  last two reach \<open>Recorder\<close> as props) and for \<open>Recorder\<close>. Each model function takes the
  render it was created in as argument \<open>rd\<close>; state setters write the pending state
  \<open>cur\<close> of the world, which the next render sees. An event handler runs in the latest
  render; a timer callback keeps the render that created it.
\<close>

record render =
  audioContext :: bool
  playingPads :: "nat list"
  isRecording :: bool
  recordedHits :: "RecordedHit list"
  bpm :: nat
  bars :: nat
  recording :: "Recording option"
  isPlaying :: bool
  playbackPosition :: rat
  recordingPosition :: rat
  metronomeEnabled :: bool
  countInBars :: nat
  isCountingIn :: bool
  countInBar :: nat

text \<open>
  The callbacks handed to \<open>setTimeout\<close> and \<open>setInterval\<close>, one constructor per
  arrow function of the source, with the values each one closes over. The local
  counters \<open>beatCount\<close> and \<open>currentBar\<close> live in their closures.
\<close>

datatype callback =
    is_PadFlash: PadFlash nat
  | is_MetronomeTick: MetronomeTick render nat
  | is_BarInterval: BarInterval render nat
  | is_CountInDone: CountInDone render nat
  | is_RecordingPosition: RecordingPosition rat
  | is_AutoStop: AutoStop
  | is_HitTrigger: HitTrigger render RecordedHit
  | is_PlaybackPosition: PlaybackPosition render Recording
  | is_LoopRestart: LoopRestart render

record timer =
  handle :: nat
  due :: int
  period :: "int option"
  action :: callback

text \<open>
  The world: the pending component state, the refs (\<open>useRef\<close> cells, shared by all
  renders), the browser's timer table and clock, and a log of the sounds started
  (\<open>played\<close>: pad samples, \<open>clicks\<close>: metronome clicks with the downbeat flag).
  \<open>samplerRecordingStartTimeRef\<close> is the \<open>recordingStartTimeRef\<close> of \<open>Sampler\<close>;
  \<open>audioBuffersRef\<close> holds the keys of the buffer map.
\<close>

record world =
  cur :: render
  audioBuffersRef :: "nat set"
  samplerRecordingStartTimeRef :: int
  audioContextRef :: bool
  recordingStartTimeRef :: int
  countInTimeoutRef :: "nat option"
  playbackIntervalRef :: "nat option"
  playbackStartTimeRef :: int
  scheduledHitsRef :: "nat list"
  recordingIntervalRef :: "nat option"
  metronomeIntervalRef :: "nat option"
  timers :: "timer list"
  nextHandle :: nat
  now :: int
  played :: "(int \<times> nat) list"
  clicks :: "(int \<times> bool) list"

definition setState :: "(render \<Rightarrow> render) \<Rightarrow> world \<Rightarrow> world" where
  "setState f w = w\<lparr>cur := f (cur w)\<rparr>"

section \<open>Browser timers\<close>

text \<open>
  The delay of a timer is converted to a whole number of milliseconds; a negative one
  counts as 0. Handles are allocated in increasing order; \<open>clearTimeout\<close> and
  \<open>clearInterval\<close> work on the same table.
\<close>

definition timer_delay :: "rat \<Rightarrow> int" where
  "timer_delay d = (if d < 0 then 0 else \<lfloor>d\<rfloor>)"

definition setTimeout :: "callback \<Rightarrow> rat \<Rightarrow> world \<Rightarrow> nat \<times> world" where
  "setTimeout cb delay w =
     (let h = nextHandle w in
      (h, w\<lparr>timers := timers w @
                [\<lparr>handle = h, due = now w + timer_delay delay, period = None, action = cb\<rparr>],
             nextHandle := h + 1\<rparr>))"

definition setInterval :: "callback \<Rightarrow> rat \<Rightarrow> world \<Rightarrow> nat \<times> world" where
  "setInterval cb delay w =
     (let h = nextHandle w in
      (h, w\<lparr>timers := timers w @
                [\<lparr>handle = h, due = now w + timer_delay delay,
                  period = Some (timer_delay delay), action = cb\<rparr>],
             nextHandle := h + 1\<rparr>))"

definition clearTimer :: "nat \<Rightarrow> world \<Rightarrow> world" where
  "clearTimer h w = w\<lparr>timers := filter (\<lambda>t. handle t \<noteq> h) (timers w)\<rparr>"

definition setAction :: "nat \<Rightarrow> callback \<Rightarrow> world \<Rightarrow> world" where
  "setAction h cb w =
     w\<lparr>timers := map (\<lambda>t. if handle t = h then t\<lparr>action := cb\<rparr> else t) (timers w)\<rparr>"

section \<open>Sampler: capturing hits\<close>

definition handleRecordingChange :: "bool \<Rightarrow> world \<Rightarrow> world" where
  "handleRecordingChange rec w =
     (let w1 = setState (\<lambda>r. r\<lparr>isRecording := rec\<rparr>) w in
      if rec
      then (setState (\<lambda>r. r\<lparr>recordedHits := []\<rparr>) w1)
             \<lparr>samplerRecordingStartTimeRef := now w1\<rparr>
      else w1)"

definition playAudio :: "render \<Rightarrow> nat \<Rightarrow> world \<Rightarrow> world" where
  "playAudio rd i w =
     (if \<not> audioContext rd then w
      else if i \<notin> audioBuffersRef w then w
      else
        let w1 = w\<lparr>played := played w @ [(now w, i)]\<rparr>;
            w2 = setState (\<lambda>r. r\<lparr>playingPads := List.insert i (playingPads r)\<rparr>) w1;
            w3 = (if isRecording rd
                  then let timestamp = now w2 - samplerRecordingStartTimeRef w2 in
                       setState (\<lambda>r. r\<lparr>recordedHits := recordedHits r @
                                          [\<lparr>padId = i, timestamp = timestamp\<rparr>]\<rparr>) w2
                  else w2)
        in snd (setTimeout (PadFlash i) 100 w3))"

section \<open>Recorder: metronome\<close>

definition playMetronomeClick :: "render \<Rightarrow> bool \<Rightarrow> world \<Rightarrow> world" where
  "playMetronomeClick rd isDownbeat w =
     (if \<not> audioContextRef w \<or> \<not> metronomeEnabled rd then w
      else w\<lparr>clicks := clicks w @ [(now w, isDownbeat)]\<rparr>)"

definition startMetronome :: "render \<Rightarrow> world \<Rightarrow> world" where
  "startMetronome rd w =
     (if \<not> metronomeEnabled rd then w
      else
        let beatDuration = (60 / of_nat (bpm rd)) * 1000;
            w1 = playMetronomeClick rd True w;
            (h, w2) = setInterval (MetronomeTick rd 0) beatDuration w1
        in w2\<lparr>metronomeIntervalRef := Some h\<rparr>)"

text \<open>
  \<open>if (ref.current) { clear(ref.current); ref.current = null }\<close>: the handle 0 is
  falsy, like null.
\<close>

definition stopMetronome :: "world \<Rightarrow> world" where
  "stopMetronome w =
     (case metronomeIntervalRef w of
        None \<Rightarrow> w
      | Some h \<Rightarrow> if h = 0 then w else (clearTimer h w)\<lparr>metronomeIntervalRef := None\<rparr>)"

section \<open>Recorder: recording and count-in\<close>

definition clearRecordingInterval :: "world \<Rightarrow> world" where
  "clearRecordingInterval w =
     (case recordingIntervalRef w of
        None \<Rightarrow> w
      | Some h \<Rightarrow> if h = 0 then w else (clearTimer h w)\<lparr>recordingIntervalRef := None\<rparr>)"

definition clearCountInTimeout :: "world \<Rightarrow> world" where
  "clearCountInTimeout w =
     (case countInTimeoutRef w of
        None \<Rightarrow> w
      | Some h \<Rightarrow> if h = 0 then w else (clearTimer h w)\<lparr>countInTimeoutRef := None\<rparr>)"

definition startActualRecording :: "render \<Rightarrow> world \<Rightarrow> world" where
  "startActualRecording rd w =
     (let w1 = handleRecordingChange True w;
          w2 = w1\<lparr>recordingStartTimeRef := now w1\<rparr>;
          w3 = (if metronomeEnabled rd \<and> \<not> isCountingIn rd then startMetronome rd w2 else w2);
          duration = calculateDuration (of_nat (bars rd)) (of_nat (bpm rd));
          (h, w4) = setInterval (RecordingPosition duration) 16 w3;
          w5 = w4\<lparr>recordingIntervalRef := Some h\<rparr>
      in snd (setTimeout AutoStop duration w5))"

definition handleRecord :: "render \<Rightarrow> world \<Rightarrow> world" where
  "handleRecord rd w =
     (if isRecording rd \<or> isCountingIn rd then
        (if isCountingIn rd then
           let w1 = setState (\<lambda>r. r\<lparr>isCountingIn := False\<rparr>) w;
               w2 = stopMetronome w1
           in clearCountInTimeout w2
         else
           let w1 = handleRecordingChange False w;
               w2 = stopMetronome w1;
               w3 = setState (\<lambda>r. r\<lparr>recordingPosition := 0\<rparr>) w2;
               w4 = clearRecordingInterval w3;
               duration = calculateDuration (of_nat (bars rd)) (of_nat (bpm rd));
               newRecording = \<lparr>hits = recordedHits rd, rec_bars = bars rd,
                                rec_bpm = bpm rd, duration = duration\<rparr>
           in setState (\<lambda>r. r\<lparr>recording := Some newRecording\<rparr>) w4)
      else
        let w1 = setState (\<lambda>r. r\<lparr>recording := None\<rparr>) w;
            w2 = setState (\<lambda>r. r\<lparr>isPlaying := False\<rparr>) w1;
            w3 = setState (\<lambda>r. r\<lparr>recordingPosition := 0\<rparr>) w2
        in if countInBars rd > 0 then
             let w4 = setState (\<lambda>r. r\<lparr>isCountingIn := True\<rparr>) w3;
                 w5 = setState (\<lambda>r. r\<lparr>countInBar := 1\<rparr>) w4;
                 w6 = (if metronomeEnabled rd then startMetronome rd w5 else w5);
                 barDuration = (60 / of_nat (bpm rd)) * 4 * 1000;
                 (barInterval, w7) = setInterval (BarInterval rd 1) barDuration w6;
                 countInDuration = calculateDuration (of_nat (countInBars rd)) (of_nat (bpm rd));
                 (h, w8) = setTimeout (CountInDone rd barInterval) countInDuration w7
             in w8\<lparr>countInTimeoutRef := Some h\<rparr>
           else startActualRecording rd w3)"

section \<open>Recorder: playback\<close>

definition scheduleHit :: "render \<Rightarrow> RecordedHit \<Rightarrow> world \<Rightarrow> world" where
  "scheduleHit rd hit w =
     (let (timeoutId, w1) = setTimeout (HitTrigger rd hit) (of_int (timestamp hit)) w
      in w1\<lparr>scheduledHitsRef := List.insert timeoutId (scheduledHitsRef w1)\<rparr>)"

definition startPlayback :: "render \<Rightarrow> world \<Rightarrow> world" where
  "startPlayback rd w =
     (case recording rd of
        None \<Rightarrow> w
      | Some r \<Rightarrow>
          if length (hits r) = 0 then w
          else
            let w1 = setState (\<lambda>s. s\<lparr>isPlaying := True\<rparr>) w;
                w2 = w1\<lparr>playbackStartTimeRef := now w1, scheduledHitsRef := []\<rparr>;
                w3 = (if metronomeEnabled rd then startMetronome rd w2 else w2);
                w4 = fold (scheduleHit rd) (hits r) w3;
                (h, w5) = setInterval (PlaybackPosition rd r) 16 w4
            in w5\<lparr>playbackIntervalRef := Some h\<rparr>)"

definition clearPlaybackInterval :: "world \<Rightarrow> world" where
  "clearPlaybackInterval w =
     (case playbackIntervalRef w of
        None \<Rightarrow> w
      | Some h \<Rightarrow> if h = 0 then w else (clearTimer h w)\<lparr>playbackIntervalRef := None\<rparr>)"

definition stopPlayback :: "world \<Rightarrow> world" where
  "stopPlayback w =
     (let w1 = setState (\<lambda>r. r\<lparr>isPlaying := False\<rparr>) w;
          w2 = setState (\<lambda>r. r\<lparr>playbackPosition := 0\<rparr>) w1;
          w3 = stopMetronome w2;
          w4 = clearPlaybackInterval w3;
          w5 = fold clearTimer (scheduledHitsRef w4) w4
      in w5\<lparr>scheduledHitsRef := []\<rparr>)"

definition handlePlayStop :: "render \<Rightarrow> world \<Rightarrow> world" where
  "handlePlayStop rd w = (if isPlaying rd then stopPlayback w else startPlayback rd w)"

definition handleClear :: "world \<Rightarrow> world" where
  "handleClear w =
     (let w1 = stopPlayback w;
          w2 = stopMetronome w1;
          w3 = setState (\<lambda>r. r\<lparr>recording := None\<rparr>) w2;
          w4 = setState (\<lambda>r. r\<lparr>recordingPosition := 0\<rparr>) w3;
          w5 = setState (\<lambda>r. r\<lparr>isCountingIn := False\<rparr>) w4;
          w6 = clearCountInTimeout w5
      in handleRecordingChange False w6)"

section \<open>Timer callbacks\<close>

text \<open>
  The body of each callback; \<open>h\<close> is the handle of the timer that runs it (the
  callbacks of \<open>startPlayback\<close> and of the count-in refer to their own handle).
\<close>

fun runCallback :: "nat \<Rightarrow> callback \<Rightarrow> world \<Rightarrow> world" where
  "runCallback h (PadFlash i) w =
     setState (\<lambda>r. r\<lparr>playingPads := removeAll i (playingPads r)\<rparr>) w"
| "runCallback h (MetronomeTick rd beatCount) w =
     (let beatCount' = beatCount + 1;
          w1 = setAction h (MetronomeTick rd beatCount') w;
          isDownbeat = (beatCount' mod 4 = 0)
      in playMetronomeClick rd isDownbeat w1)"
| "runCallback h (BarInterval rd currentBar) w =
     (let currentBar' = currentBar + 1;
          w1 = setAction h (BarInterval rd currentBar') w
      in if currentBar' \<le> countInBars rd
         then setState (\<lambda>r. r\<lparr>countInBar := currentBar'\<rparr>) w1
         else clearTimer h w1)"
| "runCallback h (CountInDone rd barInterval) w =
     (let w1 = clearTimer barInterval w;
          w2 = setState (\<lambda>r. r\<lparr>isCountingIn := False\<rparr>) w1
      in startActualRecording rd w2)"
| "runCallback h (RecordingPosition dur) w =
     (let elapsed = now w - recordingStartTimeRef w;
          pos = position elapsed dur
      in setState (\<lambda>r. r\<lparr>recordingPosition := pos\<rparr>) w)"
| "runCallback h AutoStop w =
     (let w1 = handleRecordingChange False w;
          w2 = stopMetronome w1;
          w3 = setState (\<lambda>r. r\<lparr>recordingPosition := 0\<rparr>) w2
      in clearRecordingInterval w3)"
| "runCallback h (HitTrigger rd hit) w =
     (let w1 = playAudio rd (padId hit) w
      in w1\<lparr>scheduledHitsRef := removeAll h (scheduledHitsRef w1)\<rparr>)"
| "runCallback h (PlaybackPosition rd r) w =
     (let elapsed = now w - playbackStartTimeRef w;
          pos = position elapsed (duration r);
          w1 = setState (\<lambda>s. s\<lparr>playbackPosition := pos\<rparr>) w
      in if pos \<ge> 1
         then let w2 = stopPlayback w1 in snd (setTimeout (LoopRestart rd) 50 w2)
         else w1)"
| "runCallback h (LoopRestart rd) w = startPlayback rd w"

text \<open>
  A timer runs when the clock has reached its due time, never before. A timeout leaves
  the table when it runs; an interval is armed again one period after the run.
\<close>

definition fire :: "nat \<Rightarrow> world \<Rightarrow> world" where
  "fire h w =
     (case find (\<lambda>t. handle t = h) (timers w) of
        None \<Rightarrow> w
      | Some t \<Rightarrow>
          if now w < due t then w
          else (case period t of
                  None \<Rightarrow> runCallback h (action t) (clearTimer h w)
                | Some p \<Rightarrow>
                    runCallback h (action t)
                      (w\<lparr>timers := map (\<lambda>u. if handle u = h then u\<lparr>due := now w + p\<rparr> else u)
                                       (timers w)\<rparr>)))"

section \<open>User interface and runs\<close>

text \<open>
  The controls of the rendered component, each with its \<open>disabled\<close> attribute: a
  disabled control does not call its handler. \<open>SetBpm\<close> is the tempo input, whose
  handler clamps to 60..200 and replaces an unreadable or zero value by 120.
  \<open>PadHit\<close> is a key press or pad click, \<open>Elapse\<close> lets the clock move on, \<open>Fire\<close>
  lets the browser run a timer.
\<close>

datatype event =
    ClickRecord
  | ClickPlay
  | ClickClear
  | SetBpm nat
  | SetBars nat
  | SetMetronome bool
  | SetCountIn nat
  | PadHit nat
  | Elapse nat
  | Fire nat

definition settingsDisabled :: "render \<Rightarrow> bool" where
  "settingsDisabled rd = (isRecording rd \<or> isPlaying rd \<or> isCountingIn rd)"

definition playDisabled :: "render \<Rightarrow> bool" where
  "playDisabled rd =
     (isRecording rd \<or> isCountingIn rd \<or>
      (case recording rd of None \<Rightarrow> True | Some r \<Rightarrow> length (hits r) = 0))"

fun step :: "event \<Rightarrow> world \<Rightarrow> world" where
  "step ClickRecord w = (if isPlaying (cur w) then w else handleRecord (cur w) w)"
| "step ClickPlay w = (if playDisabled (cur w) then w else handlePlayStop (cur w) w)"
| "step ClickClear w = (if settingsDisabled (cur w) then w else handleClear w)"
| "step (SetBpm v) w =
     (if settingsDisabled (cur w) then w
      else setState (\<lambda>r. r\<lparr>bpm := max 60 (min 200 (if v = 0 then 120 else v))\<rparr>) w)"
| "step (SetBars v) w =
     (if settingsDisabled (cur w) \<or> (v \<noteq> 8 \<and> v \<noteq> 16) then w
      else setState (\<lambda>r. r\<lparr>bars := v\<rparr>) w)"
| "step (SetMetronome v) w =
     (if settingsDisabled (cur w) then w else setState (\<lambda>r. r\<lparr>metronomeEnabled := v\<rparr>) w)"
| "step (SetCountIn v) w =
     (if settingsDisabled (cur w) \<or> 2 < v then w
      else setState (\<lambda>r. r\<lparr>countInBars := v\<rparr>) w)"
| "step (PadHit i) w = playAudio (cur w) i w"
| "step (Elapse d) w = w\<lparr>now := now w + int d\<rparr>"
| "step (Fire h) w = fire h w"

definition run :: "event list \<Rightarrow> world \<Rightarrow> world" where
  "run es w = fold step es w"

text \<open>
  The component after mounting: the default values of the state variables, the audio
  contexts created, the ten default samples loaded on pads 0 to 9, no timer pending.
  The first timer handle is 1.
\<close>

definition initial :: world where
  "initial =
     \<lparr>cur = \<lparr>audioContext = True, playingPads = [], isRecording = False, recordedHits = [],
             bpm = 120, bars = 8, recording = None, isPlaying = False,
             playbackPosition = 0, recordingPosition = 0, metronomeEnabled = False,
             countInBars = 0, isCountingIn = False, countInBar = 0\<rparr>,
      audioBuffersRef = {0, 1, 2, 3, 4, 5, 6, 7, 8, 9},
      samplerRecordingStartTimeRef = 0, audioContextRef = True,
      recordingStartTimeRef = 0, countInTimeoutRef = None, playbackIntervalRef = None,
      playbackStartTimeRef = 0, scheduledHitsRef = [], recordingIntervalRef = None,
      metronomeIntervalRef = None, timers = [], nextHandle = 1, now = 0,
      played = [], clicks = []\<rparr>"

text \<open>
  A run with exact timers: up to the time \<open>T\<close>, the pending timer with the earliest due
  time (the oldest one among equals) runs at its due time. The fuel bounds the number
  of timer runs; \<open>None\<close> means that it did not suffice.
\<close>

fun earliest :: "timer list \<Rightarrow> timer option" where
  "earliest [] = None"
| "earliest (t # ts) =
     (case earliest ts of
        None \<Rightarrow> Some t
      | Some u \<Rightarrow> if due u < due t then Some u else Some t)"

fun advance_to :: "nat \<Rightarrow> int \<Rightarrow> world \<Rightarrow> world option" where
  "advance_to 0 T w = None"
| "advance_to (Suc n) T w =
     (case earliest (timers w) of
        None \<Rightarrow> Some (w\<lparr>now := max (now w) T\<rparr>)
      | Some t \<Rightarrow>
          if T < due t then Some (w\<lparr>now := max (now w) T\<rparr>)
          else advance_to n T (fire (handle t) (w\<lparr>now := max (now w) (due t)\<rparr>)))"

text \<open>
  A script gives user events with the clock times at which they happen; the timers
  run exactly in between.
\<close>

fun play_script :: "nat \<Rightarrow> (int \<times> event) list \<Rightarrow> world \<Rightarrow> world option" where
  "play_script fuel [] w = Some w"
| "play_script fuel ((t, e) # es) w =
     (case advance_to fuel t w of
        None \<Rightarrow> None
      | Some w' \<Rightarrow> play_script fuel es (step e w'))"

section \<open>Observations and scenarios\<close>

text \<open>The handles of the pending timers whose callback is of a given sort.\<close>

definition pending :: "(callback \<Rightarrow> bool) \<Rightarrow> world \<Rightarrow> nat list" where
  "pending P w = map handle (filter (\<lambda>t. P (action t)) (timers w))"




text \<open>
  The spec's invariant of a recording, and its bound on the distance between the first
  triggers of two consecutive loop iterations, taking as scheduling granularity the
  16 ms period of the position poll (the coarsest period of the playback scheduler).
\<close>

definition offsets_in_window :: "Recording \<Rightarrow> bool" where
  "offsets_in_window r = list_all (\<lambda>h. of_int (timestamp h) < duration r) (hits r)"


section \<open>Invariants\<close>


definition handles_ok :: "world \<Rightarrow> bool" where
  "handles_ok w =
     (0 < nextHandle w \<and> distinct (map handle (timers w)) \<and>
      (\<forall>t\<in>set (timers w). 0 < handle t \<and> handle t < nextHandle w))"


text \<open>
  The bookkeeping of a playback loop. While playing, every pending trigger is in
  \<open>scheduledHitsRef\<close>, the poll is the one in \<open>playbackIntervalRef\<close> and the metronome
  interval the one in \<open>metronomeIntervalRef\<close>; between two iterations at most one
  loop-restart timeout is pending.
\<close>

definition playing_ok :: "world \<Rightarrow> timer \<Rightarrow> bool" where
  "playing_ok w t =
     (is_PadFlash (action t) \<or> is_AutoStop (action t)
      \<or> (is_HitTrigger (action t) \<and> period t = None \<and> handle t \<in> set (scheduledHitsRef w))
      \<or> (is_PlaybackPosition (action t) \<and> playbackIntervalRef w = Some (handle t))
      \<or> (is_MetronomeTick (action t) \<and> metronomeIntervalRef w = Some (handle t)))"

definition settling_ok :: "nat \<Rightarrow> timer \<Rightarrow> bool" where
  "settling_ok lr t =
     (is_PadFlash (action t) \<or> is_AutoStop (action t)
      \<or> (is_LoopRestart (action t) \<and> period t = None \<and> handle t = lr))"

definition iter_inv :: "world \<Rightarrow> bool" where
  "iter_inv w =
     (handles_ok w \<and>
      (if isPlaying (cur w) then \<forall>t\<in>set (timers w). playing_ok w t
       else \<exists>lr. \<forall>t\<in>set (timers w). settling_ok lr t))"



text \<open>Two timers are similar when they agree on handle, period and sort of callback.\<close>

definition sim :: "timer \<Rightarrow> timer \<Rightarrow> bool" where
  "sim t' t =
     (handle t' = handle t \<and> period t' = period t
      \<and> is_PadFlash (action t') = is_PadFlash (action t)
      \<and> is_AutoStop (action t') = is_AutoStop (action t)
      \<and> is_HitTrigger (action t') = is_HitTrigger (action t)
      \<and> is_PlaybackPosition (action t') = is_PlaybackPosition (action t)
      \<and> is_MetronomeTick (action t') = is_MetronomeTick (action t)
      \<and> is_LoopRestart (action t') = is_LoopRestart (action t))"



text \<open>
  The captured hits never lie in the future: each offset is at most the time elapsed
  since the take started. \<open>obs\<close> collects what this depends on.
\<close>

definition hits_inv :: "world \<Rightarrow> bool" where
  "hits_inv w =
     (\<forall>h\<in>set (recordedHits (cur w)). timestamp h \<le> now w - samplerRecordingStartTimeRef w)"

definition obs :: "world \<Rightarrow> RecordedHit list \<times> int \<times> int" where
  "obs w = (recordedHits (cur w), now w, samplerRecordingStartTimeRef w)"

definition hits_bounded :: "RecordedHit list \<times> int \<times> int \<Rightarrow> bool" where
  "hits_bounded x = (case x of (hs, n, s) \<Rightarrow> \<forall>h\<in>set hs. timestamp h \<le> n - s)"

section \<open>Tempo arithmetic: results\<close>





section \<open>Evaluating runs\<close>

lemmas model_defs = run_def initial_def handleRecord_def startActualRecording_def
  handleRecordingChange_def setState_def setInterval_def setTimeout_def clearTimer_def
  stopMetronome_def startMetronome_def playMetronomeClick_def clearCountInTimeout_def
  clearRecordingInterval_def calculateDuration_def timer_delay_def settingsDisabled_def
  playDisabled_def fire_def setAction_def playAudio_def handlePlayStop_def startPlayback_def
  stopPlayback_def scheduleHit_def clearPlaybackInterval_def position_def handleClear_def
  pending_def

lemma advance_to_numeral:
  "advance_to (numeral k) T w =
     (case earliest (timers w) of
        None \<Rightarrow> Some (w\<lparr>now := max (now w) T\<rparr>)
      | Some t \<Rightarrow>
          if T < due t then Some (w\<lparr>now := max (now w) T\<rparr>)
          else advance_to (pred_numeral k) T (fire (handle t) (w\<lparr>now := max (now w) (due t)\<rparr>)))"
  by (simp add: numeral_eq_Suc)


section \<open>Transport guards\<close>






section \<open>Timers that outlive their cycle\<close>

text \<open>
  C8. With the metronome enabled and a count-in of one bar at 120 bpm, the end of the
  count-in at 2000 ms starts the metronome a second time: two click intervals (handles
  1 and 4) are pending and both click at 2000 ms. The ref holds only the second handle,
  so after a manual stop at 2100 ms the first interval is still pending and keeps
  clicking (2500 ms, 3000 ms).
\<close>

theorem metronome_started_twice:
  "map_option (\<lambda>w. (pending is_MetronomeTick w, metronomeIntervalRef w, clicks w))
     (play_script 100 [(0, SetMetronome True), (0, SetCountIn 1), (0, ClickRecord),
                       (2000, Elapse 0)] initial)
   = Some ([1, 4], Some 4,
           [(0, True), (500, False), (1000, False), (1500, False), (2000, True), (2000, True)])
   \<and> map_option (\<lambda>w. (pending is_MetronomeTick w, metronomeIntervalRef w,
                       isRecording (cur w), clicks w))
     (play_script 100 [(0, SetMetronome True), (0, SetCountIn 1), (0, ClickRecord),
                       (2000, Elapse 0), (2100, ClickRecord), (3100, Elapse 0)] initial)
   = Some ([1], None, False,
           [(0, True), (500, False), (1000, False), (1500, False), (2000, True), (2000, True),
            (2500, False), (3000, False)])"
  by (simp add: model_defs advance_to_numeral)

text \<open>
  C9. Count-in of two bars at 120 bpm with the metronome, cancelled at 1000 ms: the
  transport is idle, no recording exists, the metronome and the hand-over timeout are
  cancelled, but the bar-advance interval (handle 2) is still pending. When a new
  count-in starts at 1500 ms, the old interval runs at 2000 ms and moves the displayed
  bar of the new count-in to 2.
\<close>

theorem countin_cancel_leaves_bar_interval:
  "map_option (\<lambda>w. (isCountingIn (cur w), isRecording (cur w), recording (cur w),
                     countInBar (cur w), pending is_MetronomeTick w,
                     pending is_CountInDone w, pending is_BarInterval w))
     (play_script 100 [(0, SetMetronome True), (0, SetCountIn 2), (0, ClickRecord),
                       (1000, ClickRecord)] initial)
   = Some (False, False, None, 1, [], [], [2])
   \<and> map_option (\<lambda>w. (isCountingIn (cur w), countInBar (cur w), pending is_BarInterval w))
     (play_script 100 [(0, SetMetronome True), (0, SetCountIn 2), (0, ClickRecord),
                       (1000, ClickRecord), (1500, ClickRecord), (2000, Elapse 0)] initial)
   = Some (True, 2, [2, 5])"
  by (simp add: model_defs advance_to_numeral)

text \<open>
  C2. Two handles are never stored, so no stop path can cancel them. (The runs below
  leave out the position polls, which only update the display.)
  The auto-stop timeout: a take started at 0 and stopped by hand at 1000 ms leaves its
  auto-stop (handle 2) pending; it runs at 16000 ms and ends the take that was started
  at 2000 ms after 14000 of its 16000 ms, without producing a recording.
  The loop-restart timeout: the poll that ends a loop iteration at 9800 ms sets it
  (handle 7); the clear command at 9810 ms leaves it pending, and at 9850 ms it starts
  playback of the cleared recording, whose trigger plays pad 0 at 9950 ms.
\<close>

theorem stale_timers_survive_stop:
  "(\<lambda>w. (now w, isRecording (cur w), recording (cur w), pending is_AutoStop w))
     (run [ClickRecord, Elapse 1000, ClickRecord, Elapse 1000, ClickRecord, Elapse 14000] initial)
   = (16000, True, None, [2, 4])
   \<and> (\<lambda>w. (now w - samplerRecordingStartTimeRef w, isRecording (cur w), recording (cur w)))
     (run [ClickRecord, Elapse 1000, ClickRecord, Elapse 1000, ClickRecord, Elapse 14000,
           Fire 2] initial)
   = (14000, False, None)
   \<and> (\<lambda>w. (now w, isPlaying (cur w), recording (cur w), pending is_LoopRestart w, played w))
     (run [SetBpm 200, ClickRecord, Elapse 100, PadHit 0, Elapse 100, ClickRecord, ClickPlay,
           Elapse 100, Fire 4, Elapse 9500, Fire 5, Elapse 10, ClickClear] initial)
   = (9810, False, None, [7], [(100, 0), (300, 0)])
   \<and> (\<lambda>w. (now w, isPlaying (cur w), recording (cur w), played w))
     (run [SetBpm 200, ClickRecord, Elapse 100, PadHit 0, Elapse 100, ClickRecord, ClickPlay,
           Elapse 100, Fire 4, Elapse 9500, Fire 5, Elapse 10, ClickClear,
           Elapse 40, Fire 7, Elapse 100, Fire 8] initial)
   = (9950, True, None, [(100, 0), (300, 0), (9950, 0)])"
  by (simp add: model_defs)

section \<open>Captured offsets\<close>

lemma hits_inv_obs: "obs w' = obs w \<Longrightarrow> hits_inv w \<Longrightarrow> hits_inv w'"
  by (simp add: hits_inv_def obs_def)

lemma obs_clearTimer [simp]: "obs (clearTimer h w) = obs w"
  by (simp add: obs_def clearTimer_def)

lemma obs_fold_clearTimer [simp]: "obs (fold clearTimer hs w) = obs w"
  by (induction hs arbitrary: w) simp_all

lemma obs_setTimeout [simp]: "obs (snd (setTimeout cb d w)) = obs w"
  by (simp add: obs_def setTimeout_def Let_def)

lemma obs_setInterval [simp]: "obs (snd (setInterval cb d w)) = obs w"
  by (simp add: obs_def setInterval_def Let_def)

lemma obs_setAction [simp]: "obs (setAction h cb w) = obs w"
  by (simp add: obs_def setAction_def)

lemma obs_stopMetronome [simp]: "obs (stopMetronome w) = obs w"
  by (simp add: obs_def stopMetronome_def clearTimer_def split: option.splits)

lemma obs_clearRecordingInterval [simp]: "obs (clearRecordingInterval w) = obs w"
  by (simp add: obs_def clearRecordingInterval_def clearTimer_def split: option.splits)

lemma obs_clearCountInTimeout [simp]: "obs (clearCountInTimeout w) = obs w"
  by (simp add: obs_def clearCountInTimeout_def clearTimer_def split: option.splits)

lemma obs_clearPlaybackInterval [simp]: "obs (clearPlaybackInterval w) = obs w"
  by (simp add: obs_def clearPlaybackInterval_def clearTimer_def split: option.splits)

lemma obs_playMetronomeClick [simp]: "obs (playMetronomeClick rd b w) = obs w"
  by (simp add: obs_def playMetronomeClick_def)

lemma obs_startMetronome [simp]: "obs (startMetronome rd w) = obs w"
  by (simp add: obs_def startMetronome_def setInterval_def playMetronomeClick_def Let_def)

lemma obs_scheduleHit [simp]: "obs (scheduleHit rd h w) = obs w"
  by (simp add: obs_def scheduleHit_def setTimeout_def Let_def)

lemma obs_fold_scheduleHit [simp]: "obs (fold (scheduleHit rd) hs w) = obs w"
  by (induction hs arbitrary: w) simp_all

lemma obs_stopPlayback [simp]: "obs (stopPlayback w) = obs w"
proof -
  have "obs (stopPlayback w) = obs (fold clearTimer
          (scheduledHitsRef (clearPlaybackInterval (stopMetronome
             (setState (\<lambda>r. r\<lparr>playbackPosition := 0\<rparr>) (setState (\<lambda>r. r\<lparr>isPlaying := False\<rparr>) w)))))
          (clearPlaybackInterval (stopMetronome
             (setState (\<lambda>r. r\<lparr>playbackPosition := 0\<rparr>) (setState (\<lambda>r. r\<lparr>isPlaying := False\<rparr>) w)))))"
    by (simp add: stopPlayback_def obs_def Let_def)
  also have "\<dots> = obs (setState (\<lambda>r. r\<lparr>playbackPosition := 0\<rparr>) (setState (\<lambda>r. r\<lparr>isPlaying := False\<rparr>) w))"
    by simp
  also have "\<dots> = obs w"
    by (simp add: obs_def setState_def)
  finally show ?thesis .
qed

lemma hits_inv_handleRecordingChange: "hits_inv w \<Longrightarrow> hits_inv (handleRecordingChange b w)"
  by (simp add: hits_inv_def handleRecordingChange_def setState_def Let_def)

lemma hits_inv_playAudio: "hits_inv w \<Longrightarrow> hits_inv (playAudio rd i w)"
  by (auto simp: hits_inv_def playAudio_def setState_def setTimeout_def Let_def)

lemma obs_setState: "recordedHits (f (cur w)) = recordedHits (cur w) \<Longrightarrow> obs (setState f w) = obs w"
  by (simp add: obs_def setState_def)

lemma obs_field_updates [simp]:
  "obs (w\<lparr>recordingStartTimeRef := a\<rparr>) = obs w"
  "obs (w\<lparr>countInTimeoutRef := b\<rparr>) = obs w"
  "obs (w\<lparr>playbackIntervalRef := b\<rparr>) = obs w"
  "obs (w\<lparr>playbackStartTimeRef := a\<rparr>) = obs w"
  "obs (w\<lparr>scheduledHitsRef := c\<rparr>) = obs w"
  "obs (w\<lparr>recordingIntervalRef := b\<rparr>) = obs w"
  "obs (w\<lparr>metronomeIntervalRef := b\<rparr>) = obs w"
  "obs (w\<lparr>timers := d\<rparr>) = obs w"
  by (simp_all add: obs_def)

lemma obs_handleRecordingChange:
  "obs (handleRecordingChange b w) = (if b then ([], now w, now w) else obs w)"
  by (simp add: obs_def handleRecordingChange_def setState_def Let_def)

lemma obs_startActualRecording: "obs (startActualRecording rd w) = ([], now w, now w)"
proof -
  have now_h: "now (handleRecordingChange True w) = now w"
    by (simp add: handleRecordingChange_def setState_def Let_def)
  show ?thesis
    by (simp add: startActualRecording_def Let_def case_prod_beta obs_handleRecordingChange now_h)
qed

lemma obs_playAudio:
  "obs (playAudio rd i w) =
     (if audioContext rd \<and> i \<in> audioBuffersRef w \<and> isRecording rd
      then (recordedHits (cur w) @ [\<lparr>padId = i, timestamp = now w - samplerRecordingStartTimeRef w\<rparr>],
            now w, samplerRecordingStartTimeRef w)
      else obs w)"
  by (simp add: playAudio_def Let_def) (simp add: obs_def setState_def)

lemma obs_startPlayback [simp]: "obs (startPlayback rd w) = obs w"
  by (simp add: startPlayback_def Let_def case_prod_beta obs_setState split: option.splits)

lemma obs_handleClear [simp]: "obs (handleClear w) = obs w"
  by (simp add: handleClear_def Let_def obs_handleRecordingChange obs_setState)

lemma obs_handleRecord:
  "obs (handleRecord rd w) =
     (if isRecording rd \<or> isCountingIn rd \<or> 0 < countInBars rd then obs w else ([], now w, now w))"
proof -
  have now3: "now (setState f w) = now w" for f w
    by (simp add: setState_def)
  show ?thesis
    by (simp add: handleRecord_def Let_def case_prod_beta obs_setState obs_handleRecordingChange
        obs_startActualRecording now3)
qed

lemma hits_inv_bounded: "hits_inv w = hits_bounded (obs w)"
  by (simp add: hits_inv_def hits_bounded_def obs_def)

lemma hits_bounded_fresh [simp]: "hits_bounded ([], n, s)"
  by (simp add: hits_bounded_def)

lemma hits_inv_runCallback: "hits_inv w \<Longrightarrow> hits_inv (runCallback h cb w)"
proof (cases cb)
  case (HitTrigger rd hit)
  then show "hits_inv w \<Longrightarrow> hits_inv (runCallback h cb w)"
    by (auto simp: hits_inv_bounded Let_def obs_playAudio) (auto simp: hits_bounded_def obs_def)
next
  case (PlaybackPosition rd r)
  then show "hits_inv w \<Longrightarrow> hits_inv (runCallback h cb w)"
    by (simp add: hits_inv_bounded Let_def obs_setState)
qed (simp_all add: hits_inv_bounded Let_def obs_setState obs_startActualRecording obs_handleRecordingChange)

lemma hits_inv_fire:
  assumes "hits_inv w"
  shows "hits_inv (fire h w)"
proof -
  have a: "hits_inv (clearTimer h w)"
    using assms by (simp add: hits_inv_bounded)
  have b: "hits_inv (w\<lparr>timers := ts\<rparr>)" for ts
    using assms by (simp add: hits_inv_bounded)
  show ?thesis
    unfolding fire_def using assms a b
    by (auto split: option.splits intro!: hits_inv_runCallback)
qed

lemma hits_inv_step: "hits_inv w \<Longrightarrow> hits_inv (step e w)"
proof (cases e)
  case ClickRecord
  then show "hits_inv w \<Longrightarrow> hits_inv (step e w)"
    by (simp add: hits_inv_bounded obs_handleRecord)
next
  case ClickPlay
  then show "hits_inv w \<Longrightarrow> hits_inv (step e w)"
    by (simp add: hits_inv_bounded handlePlayStop_def)
next
  case (PadHit i)
  then show "hits_inv w \<Longrightarrow> hits_inv (step e w)"
    by (auto simp: hits_inv_bounded obs_playAudio) (auto simp: hits_bounded_def obs_def)
next
  case (Elapse d)
  then show "hits_inv w \<Longrightarrow> hits_inv (step e w)"
    by (auto simp: hits_inv_def)
next
  case (Fire h)
  then show "hits_inv w \<Longrightarrow> hits_inv (step e w)"
    by (simp add: hits_inv_fire)
qed (simp_all add: hits_inv_bounded obs_setState)

lemma hits_inv_run: "hits_inv w \<Longrightarrow> hits_inv (run es w)"
  unfolding run_def by (induction es arbitrary: w) (simp_all add: hits_inv_step)

lemma hits_inv_initial: "hits_inv initial"
  by (simp add: hits_inv_def initial_def)

text \<open>
  C7, as stated: every hit of a materialised recording has an offset below the
  duration. A timeout never runs before its delay, but it may run later: here the
  auto-stop of a 16000 ms take has not yet run at 16005 ms, a hit on pad 3 is captured
  with offset 16005, and the manual stop at 16010 ms materialises it.
\<close>

theorem late_hit_counterexample:
  "recording (cur (run [ClickRecord, Elapse 16005, PadHit 3, Elapse 5, ClickRecord] initial))
     = Some \<lparr>hits = [\<lparr>padId = 3, timestamp = 16005\<rparr>], rec_bars = 8, rec_bpm = 120,
             duration = 16000\<rparr>
   \<and> \<not> offsets_in_window \<lparr>hits = [\<lparr>padId = 3, timestamp = 16005\<rparr>], rec_bars = 8,
                             rec_bpm = 120, duration = 16000\<rparr>"
  by (simp add: model_defs offsets_in_window_def)

text \<open>
  C7, amended. In every world reachable from the initial one, a manual stop of a
  running take materialises a recording for the configured bars and tempo that holds
  exactly the captured hits, and every offset is at most the time elapsed between the
  start of the take and the stop.
\<close>

theorem materialised_offsets:
  assumes "w = run es initial" and "isRecording (cur w)" and "\<not> isCountingIn (cur w)"
    and "\<not> isPlaying (cur w)"
  shows "\<exists>r. recording (cur (step ClickRecord w)) = Some r
           \<and> duration r = calculateDuration (of_nat (bars (cur w))) (of_nat (bpm (cur w)))
           \<and> hits r = recordedHits (cur w)
           \<and> (\<forall>h\<in>set (hits r). timestamp h \<le> now w - samplerRecordingStartTimeRef w)"
proof -
  have inv: "hits_inv w"
    using assms(1) hits_inv_run [OF hits_inv_initial] by simp
  have cur_frame: "cur (clearRecordingInterval v) = cur v" "cur (stopMetronome v) = cur v" for v
    by (simp_all add: clearRecordingInterval_def stopMetronome_def clearTimer_def split: option.splits)
  have "recording (cur (step ClickRecord w)) =
          Some \<lparr>hits = recordedHits (cur w), rec_bars = bars (cur w), rec_bpm = bpm (cur w),
                duration = calculateDuration (of_nat (bars (cur w))) (of_nat (bpm (cur w)))\<rparr>"
    using assms(2-4) by (simp add: handleRecord_def Let_def setState_def cur_frame)
  then show ?thesis
    using inv by (simp add: hits_inv_def)
qed

theorem materialised_offsets_witness:
  "isRecording (cur (run [ClickRecord, Elapse 100, PadHit 0, Elapse 900] initial))
   \<and> recording (cur (step ClickRecord (run [ClickRecord, Elapse 100, PadHit 0, Elapse 900] initial)))
       = Some \<lparr>hits = [\<lparr>padId = 0, timestamp = 100\<rparr>], rec_bars = 8, rec_bpm = 120,
               duration = 16000\<rparr>
   \<and> (\<exists>r. recording (cur (step ClickRecord
              (run [ClickRecord, Elapse 100, PadHit 0, Elapse 900] initial))) = Some r
          \<and> (\<forall>h\<in>set (hits r). timestamp h \<le> 1000))"
proof -
  let ?w = "run [ClickRecord, Elapse 100, PadHit 0, Elapse 900] initial"
  have v: "isRecording (cur ?w)" "\<not> isCountingIn (cur ?w)" "\<not> isPlaying (cur ?w)"
    "now ?w - samplerRecordingStartTimeRef ?w = 1000"
    by (simp_all add: model_defs)
  have r: "recording (cur (step ClickRecord ?w))
       = Some \<lparr>hits = [\<lparr>padId = 0, timestamp = 100\<rparr>], rec_bars = 8, rec_bpm = 120,
               duration = 16000\<rparr>"
    by (simp add: model_defs)
  from materialised_offsets [OF refl v(1-3)] v(4)
  have "\<exists>r. recording (cur (step ClickRecord ?w)) = Some r
          \<and> (\<forall>h\<in>set (hits r). timestamp h \<le> 1000)"
    by auto
  then show ?thesis
    using v(1) r by blast
qed

section \<open>Playback keeps track of its timers\<close>



lemma sim_handles: "list_all2 sim ts' ts \<Longrightarrow> map handle ts' = map handle ts"
  by (induction rule: list_all2_induct) (simp_all add: sim_def)

lemma sim_member: "list_all2 sim ts' ts \<Longrightarrow> t' \<in> set ts' \<Longrightarrow> \<exists>t\<in>set ts. sim t' t"
  by (induction rule: list_all2_induct) auto


lemma playing_ok_sim:
  "sim t' t \<Longrightarrow> playing_ok w t \<Longrightarrow> scheduledHitsRef w' = scheduledHitsRef w \<Longrightarrow>
   playbackIntervalRef w' = playbackIntervalRef w \<Longrightarrow>
   metronomeIntervalRef w' = metronomeIntervalRef w \<Longrightarrow> playing_ok w' t'"
  unfolding playing_ok_def sim_def by metis

lemma settling_ok_sim: "sim t' t \<Longrightarrow> settling_ok lr t \<Longrightarrow> settling_ok lr t'"
  unfolding settling_ok_def sim_def by metis

lemma iter_inv_sim:
  assumes inv: "iter_inv w"
    and ts: "list_all2 sim (timers w') (timers w)"
    and same: "isPlaying (cur w') = isPlaying (cur w)" "nextHandle w' = nextHandle w"
      "scheduledHitsRef w' = scheduledHitsRef w" "playbackIntervalRef w' = playbackIntervalRef w"
      "metronomeIntervalRef w' = metronomeIntervalRef w"
  shows "iter_inv w'"
proof -
  have h: "map handle (timers w') = map handle (timers w)"
    using ts by (rule sim_handles)
  have "set (map handle (timers w')) = set (map handle (timers w))"
    using h by simp
  then have hset: "handle ` set (timers w') = handle ` set (timers w)"
    by simp
  have hok: "handles_ok w'"
    using inv h hset same(2) unfolding iter_inv_def handles_ok_def
    by (metis (no_types, lifting) image_iff)
  show ?thesis
  proof (cases "isPlaying (cur w)")
    case True
    then have "\<forall>t\<in>set (timers w). playing_ok w t"
      using inv by (simp add: iter_inv_def)
    then have "\<forall>t'\<in>set (timers w'). playing_ok w' t'"
      using sim_member [OF ts] playing_ok_sim same(3-5) by metis
    then show ?thesis
      using hok True same(1) by (simp add: iter_inv_def)
  next
    case False
    then obtain lr where "\<forall>t\<in>set (timers w). settling_ok lr t"
      using inv by (auto simp: iter_inv_def)
    then have "\<forall>t'\<in>set (timers w'). settling_ok lr t'"
      using sim_member [OF ts] settling_ok_sim by metis
    then show ?thesis
      using hok False same(1) by (auto simp: iter_inv_def)
  qed
qed

lemma sim_refl [simp]: "sim t t"
  by (simp add: sim_def)

lemma list_all2_sim_refl [simp]: "list_all2 sim ts ts"
  by (simp add: list_all2_same)





lemma iter_inv_setState:
  "iter_inv w \<Longrightarrow> isPlaying (f (cur w)) = isPlaying (cur w) \<Longrightarrow> iter_inv (setState f w)"
  by (rule iter_inv_sim [of w]) (simp_all add: setState_def)







lemma iter_inv_PadFlash: "iter_inv w \<Longrightarrow> iter_inv (runCallback h (PadFlash i) w)"
  by (simp add: iter_inv_setState)































section \<open>Loop iterations and their anchors\<close>













end
